theory Spec2Isabelle
  imports Main "HOL-Library.Sublist"
begin

section \<open>Python values used by the two scripts\<close>

text \<open>
  Text is a \<^typ>\<open>string\<close>, one \<^typ>\<open>char\<close> per code point (code points 0 to 255).
  \<open>isspace\<close> is the whitespace test \<^verbatim>\<open>str.split()\<close> uses on that range: tab, line feed,
  vertical tab, form feed, carriage return, the four separators 28 to 31, the blank, NEL (133)
  and the no-break space (160). The proofs below use of this table only that the blank is in it.
\<close>

definition isspace :: "char \<Rightarrow> bool" where
  "isspace c = (let n = (of_char c :: nat) in
     (9 \<le> n \<and> n \<le> 13) \<or> (28 \<le> n \<and> n \<le> 32) \<or> n = 133 \<or> n = 160)"

text \<open>
  \<^verbatim>\<open>text.split()\<close> with no separator: runs of whitespace separate the words, and whitespace
  at either end yields no empty word. \<open>split_from word cs\<close> scans \<open>cs\<close> with the word read so
  far in \<open>word\<close>.
\<close>

fun split_from :: "string \<Rightarrow> string \<Rightarrow> string list" where
  "split_from word [] = (if word = [] then [] else [word])"
| "split_from word (c # cs) =
     (if isspace c then (if word = [] then split_from [] cs else word # split_from [] cs)
      else split_from (word @ [c]) cs)"

definition str_split :: "string \<Rightarrow> string list" where
  "str_split text = split_from [] text"

text \<open>\<^verbatim>\<open>sep.join(xs)\<close>.\<close>

fun str_join :: "string \<Rightarrow> string list \<Rightarrow> string" where
  "str_join sep [] = []"
| "str_join sep [x] = x"
| "str_join sep (x # y # ys) = x @ sep @ str_join sep (y # ys)"

text \<open>
  \<^verbatim>\<open>xs[start:stop]\<close> on a list of length \<open>n\<close>: a negative bound counts from the end, and
  both bounds are then clipped to \<open>0..n\<close>; the slice is empty when the bounds cross.
\<close>

definition slice_index :: "nat \<Rightarrow> int \<Rightarrow> nat" where
  "slice_index n i = (if i < 0 then nat (max 0 (i + int n)) else min n (nat i))"

definition py_slice :: "'a list \<Rightarrow> int \<Rightarrow> int \<Rightarrow> 'a list" where
  "py_slice xs start stop =
     (let lo = slice_index (length xs) start; hi = slice_index (length xs) stop
      in take (hi - lo) (drop lo xs))"

section \<open>ingest\_pdfs\_blob.py: chunking\<close>

text \<open>
  \<^verbatim>\<open>
  def chunk_text(text, chunk_size=500, overlap=50):
      words = text.split()
      chunks = []
      start = 0
      while start < len(words):
          end = start + chunk_size
          chunk = " ".join(words[start:end])
          chunks.append(chunk)
          start += chunk_size - overlap
      return chunks
  \<close>
  \<open>chunk_size\<close> and \<open>overlap\<close> are Python integers, so \<^typ>\<open>int\<close>; nothing in the function
  checks them. The \<^verbatim>\<open>while\<close> loop is \<open>chunk_loop\<close>, with the loop variables \<open>start\<close> and
  \<open>chunks\<close> as arguments; its value is \<open>None\<close> when the loop never ends. The function has no
  \<^verbatim>\<open>raise\<close>, and none of its operations raises on a string and two integers, so its result
  has no branch for an exception.
\<close>

partial_function (option) chunk_loop ::
  "string list \<Rightarrow> int \<Rightarrow> int \<Rightarrow> int \<Rightarrow> string list \<Rightarrow> string list option" where
  "chunk_loop words chunk_size overlap start chunks =
     (if start < int (length words)
      then chunk_loop words chunk_size overlap (start + (chunk_size - overlap))
             (chunks @ [str_join '' '' (py_slice words start (start + chunk_size))])
      else Some chunks)"

declare chunk_loop.simps [code]

definition chunk_text :: "string \<Rightarrow> int \<Rightarrow> int \<Rightarrow> string list option" where
  "chunk_text text chunk_size overlap = chunk_loop (str_split text) chunk_size overlap 0 []"

section \<open>Failures of the external services\<close>

text \<open>
  Neither script defines an exception class or raises anything itself: every failure is an
  exception raised inside a call to the blob storage, the PDF reader, the embedding or chat
  model or the search index. An exception is recorded with its class name and with the text
  \<^verbatim>\<open>str(e)\<close> gives. \<open>Exception c s\<close> is an exception whose class derives from
  \<^verbatim>\<open>Exception\<close>, which is what \<^verbatim>\<open>except Exception\<close> catches; \<open>BaseException c s\<close> is one
  whose class does not (\<^verbatim>\<open>KeyboardInterrupt\<close>, \<^verbatim>\<open>SystemExit\<close>, \<^verbatim>\<open>GeneratorExit\<close>).
  A call that can raise has a result of type \<open>exn + 'a\<close>.
\<close>

datatype exn =
  Exception (exn_class: string) (exn_str: string)
| BaseException (exn_class: string) (exn_str: string)

fun is_Exception :: "exn \<Rightarrow> bool" where
  "is_Exception (Exception c s) = True"
| "is_Exception (BaseException c s) = False"

abbreviation NL :: string where
  "NL \<equiv> [CHR 0x0A]"

definition endswith :: "string \<Rightarrow> string \<Rightarrow> bool" where
  "endswith s suf = (length suf \<le> length s \<and> drop (length s - length suf) s = suf)"

section \<open>ingest\_pdfs\_blob.py: reading and the ingestion loop\<close>

text \<open>
  A blob of the container has a name and its bytes. A record uploaded to the search index is
  the dictionary \<^verbatim>\<open>{"id": ..., "content": ..., "embedding": ...}\<close>; the embedding vector
  is kept abstract (\<open>'vec\<close>), and so is a page object of the PDF reader (\<open>'page\<close>).
\<close>

record blob =
  name :: string
  data :: string

record 'vec document =
  doc_id :: string
  doc_content :: string
  doc_embedding :: "'vec"

text \<open>
  The services the script calls, each with the failures it can raise:
  \<^item> \<open>download_blob\<close> is \<^verbatim>\<open>blob_client.download_blob().readall()\<close>;
  \<^item> \<open>pdf_reader\<close> is \<^verbatim>\<open>PdfReader(BytesIO(blob_data)).pages\<close>;
  \<^item> \<open>extract_text\<close> is \<^verbatim>\<open>page.extract_text()\<close>;
  \<^item> \<open>embeddings_create\<close> is \<^verbatim>\<open>openai.embeddings.create(model=..., input=chunk).data[0].embedding\<close>;
  \<^item> \<open>uuid4\<close> gives the text of the \<open>n\<close>-th identifier drawn by \<^verbatim>\<open>str(uuid.uuid4())\<close>;
  \<^item> \<open>upload_documents\<close> is \<^verbatim>\<open>search_client.upload_documents(documents=...)\<close>, whose result
    the script ignores: \<open>None\<close> when the call returns, \<open>Some e\<close> when it raises.
\<close>

record ('page, 'vec) ingest_services =
  download_blob :: "blob \<Rightarrow> exn + string"
  pdf_reader :: "string \<Rightarrow> exn + 'page list"
  extract_text :: "'page \<Rightarrow> exn + string"
  embeddings_create :: "string \<Rightarrow> exn + 'vec"
  uuid4 :: "nat \<Rightarrow> string"
  upload_documents :: "'vec document list \<Rightarrow> exn option"

text \<open>
  \<^verbatim>\<open>
  def read_pdf_from_blob(blob_client):
      blob_data = blob_client.download_blob().readall()
      reader = PdfReader(BytesIO(blob_data))
      text = ""
      for page in reader.pages:
          page_text = page.extract_text()
          if page_text:
              text += page_text + "\n"
      return text
  \<close>
  There is no \<^verbatim>\<open>try\<close> in it: the first exception of a service leaves the function.
\<close>

fun read_pages :: "('page, 'vec) ingest_services \<Rightarrow> 'page list \<Rightarrow> string \<Rightarrow> exn + string" where
  "read_pages sv [] text = Inr text"
| "read_pages sv (page # pages) text =
     (case extract_text sv page of
        Inl e \<Rightarrow> Inl e
      | Inr page_text \<Rightarrow>
          read_pages sv pages (if page_text \<noteq> [] then text @ page_text @ NL else text))"

definition read_pdf_from_blob :: "('page, 'vec) ingest_services \<Rightarrow> blob \<Rightarrow> exn + string" where
  "read_pdf_from_blob sv blob_client =
     (case download_blob sv blob_client of
        Inl e \<Rightarrow> Inl e
      | Inr blob_data \<Rightarrow>
          (case pdf_reader sv blob_data of
             Inl e \<Rightarrow> Inl e
           | Inr pages \<Rightarrow> read_pages sv pages []))"

text \<open>
  What the script leaves behind: the records in the search index, the lines it printed, and
  the number of identifiers drawn so far. The three \<^verbatim>\<open>print\<close> calls are
  \<^verbatim>\<open>f"Processing {blob.name} from storage..."\<close>,
  \<^verbatim>\<open>f"Uploaded {len(docs_to_upload)} chunks from {blob.name}"\<close> and
  \<^verbatim>\<open>f"No chunks to upload for {blob.name}"\<close>.
\<close>

datatype line = Processing string | Uploaded nat string | No_chunks string

record 'vec world =
  index :: "'vec document list"
  stdout :: "line list"
  uuids_drawn :: nat

text \<open>
  The inner loop \<^verbatim>\<open>for chunk in chunks\<close>: one embedding request and then one fresh
  identifier per chunk, in order. \<open>n\<close> counts the identifiers drawn before the current chunk;
  the loop gives back the count it ends with, also when an embedding request raises.
\<close>

fun embed_chunks ::
  "('page, 'vec) ingest_services \<Rightarrow> string list \<Rightarrow> nat \<Rightarrow> 'vec document list
    \<Rightarrow> nat \<times> (exn + 'vec document list)" where
  "embed_chunks sv [] n docs_to_upload = (n, Inr docs_to_upload)"
| "embed_chunks sv (chunk # chunks) n docs_to_upload =
     (case embeddings_create sv chunk of
        Inl e \<Rightarrow> (n, Inl e)
      | Inr vector \<Rightarrow>
          embed_chunks sv chunks (Suc n)
            (docs_to_upload @ [\<lparr>doc_id = uuid4 sv n, doc_content = chunk, doc_embedding = vector\<rparr>]))"

text \<open>
  The body of the outer loop for one blob. Its result is \<open>None\<close> if it never finishes, and
  otherwise the world it leaves with \<open>Some e\<close> if the exception \<open>e\<close> left the body, which ends
  the script (the loop is at the top level of the script, and nothing catches anything). An
  upload that raises is taken to have stored nothing.
  \<^verbatim>\<open>
  for blob in container_client.list_blobs():
      if blob.name.endswith(".pdf"):
          print(f"Processing {blob.name} from storage...")
          blob_client = container_client.get_blob_client(blob)
          text = read_pdf_from_blob(blob_client)
          chunks = chunk_text(text)
          docs_to_upload = []
          for chunk in chunks:
              ...
          if docs_to_upload:
              result = search_client.upload_documents(documents=docs_to_upload)
              print(f"Uploaded {len(docs_to_upload)} chunks from {blob.name}")
          else:
              print(f"No chunks to upload for {blob.name}")
  \<close>
\<close>

definition process_blob ::
  "('page, 'vec) ingest_services \<Rightarrow> blob \<Rightarrow> 'vec world \<Rightarrow> ('vec world \<times> exn option) option" where
  "process_blob sv blob w =
     (if endswith (name blob) ''.pdf'' then
        (let w1 = w\<lparr>stdout := stdout w @ [Processing (name blob)]\<rparr> in
         case read_pdf_from_blob sv blob of
           Inl e \<Rightarrow> Some (w1, Some e)
         | Inr text \<Rightarrow>
             (case chunk_text text 500 50 of
                None \<Rightarrow> None
              | Some chunks \<Rightarrow>
                  (case embed_chunks sv chunks (uuids_drawn w1) [] of
                     (n, Inl e) \<Rightarrow> Some (w1\<lparr>uuids_drawn := n\<rparr>, Some e)
                   | (n, Inr docs_to_upload) \<Rightarrow>
                       (let w2 = w1\<lparr>uuids_drawn := n\<rparr> in
                        if docs_to_upload \<noteq> [] then
                          (case upload_documents sv docs_to_upload of
                             Some e \<Rightarrow> Some (w2, Some e)
                           | None \<Rightarrow>
                               Some (w2\<lparr>index := index w2 @ docs_to_upload,
                                        stdout := stdout w2
                                          @ [Uploaded (length docs_to_upload) (name blob)]\<rparr>, None))
                        else Some (w2\<lparr>stdout := stdout w2 @ [No_chunks (name blob)]\<rparr>, None)))))
      else Some (w, None))"

fun process_blobs ::
  "('page, 'vec) ingest_services \<Rightarrow> blob list \<Rightarrow> 'vec world \<Rightarrow> ('vec world \<times> exn option) option" where
  "process_blobs sv [] w = Some (w, None)"
| "process_blobs sv (blob # blobs) w =
     (case process_blob sv blob w of
        None \<Rightarrow> None
      | Some (w', Some e) \<Rightarrow> Some (w', Some e)
      | Some (w', None) \<Rightarrow> process_blobs sv blobs w')"

section \<open>rag\_chatbot\_app.py: retrieval and answering\<close>

text \<open>
  A chat message is the dictionary \<^verbatim>\<open>{"role": ..., "content": ...}\<close>. Its content is a
  string or \<^verbatim>\<open>None\<close>: the content of a completion can be \<^verbatim>\<open>None\<close>, and the code stores
  it as it comes. \<open>Some s\<close> is the string \<open>s\<close>, and \<open>None\<close> is \<^verbatim>\<open>None\<close>. A search result is
  a dictionary from field names to text; \<^verbatim>\<open>r.get("content")\<close> is \<open>r ''content''\<close>.
\<close>

record message =
  role :: string
  content :: "string option"

type_synonym search_result = "string \<rightharpoonup> string"

text \<open>
  The two services of the chat application:
  \<^item> \<open>search\<close> is \<^verbatim>\<open>search_client.search(search_text=query, top=top_k)\<close> together with the
    iteration over its results, which is where the service delivers them;
  \<^item> \<open>chat_completions_create\<close> is the body of the \<^verbatim>\<open>try\<close> block,
    \<^verbatim>\<open>openai.chat.completions.create(model=..., messages=messages, temperature=0.2,
    max_tokens=1000).choices[0].message.content\<close>, as a function of \<open>messages\<close>: the exception
    it raises, or the content of the first choice, a string or \<^verbatim>\<open>None\<close>.
\<close>

record chat_services =
  search :: "string \<Rightarrow> int \<Rightarrow> exn + search_result list"
  chat_completions_create :: "message list \<Rightarrow> exn + string option"

text \<open>
  \<^verbatim>\<open>
  def get_top_chunks(query, top_k=10):
      results = search_client.search(search_text=query, top=top_k)
      chunks = []
      for r in results:
          content = r.get("content")
          if content:
              chunks.append(content)
      return chunks
  \<close>
\<close>

fun collect_contents :: "search_result list \<Rightarrow> string list \<Rightarrow> string list" where
  "collect_contents [] chunks = chunks"
| "collect_contents (r # results) chunks =
     (case r ''content'' of
        None \<Rightarrow> collect_contents results chunks
      | Some content' \<Rightarrow>
          collect_contents results (if content' \<noteq> [] then chunks @ [content'] else chunks))"

definition get_top_chunks :: "chat_services \<Rightarrow> string \<Rightarrow> int \<Rightarrow> exn + string list" where
  "get_top_chunks sv query top_k =
     (case search sv query top_k of
        Inl e \<Rightarrow> Inl e
      | Inr results \<Rightarrow> Inr (collect_contents results []))"

text \<open>
  Python lists are objects, and \<open>generate_answer\<close> is handed a reference to the caller's
  list. The heap maps a reference to the messages of the list it names; references below
  \<open>fresh\<close> are in use. \<^verbatim>\<open>copy.deepcopy(xs)\<close> allocates a new list with copies of the
  messages, \<^verbatim>\<open>xs.append(m)\<close> changes the list \<open>xs\<close> names in place. The message dictionaries
  are never changed after they are built, so a list holds them by value.
\<close>

record heap =
  cells :: "nat \<Rightarrow> message list"
  fresh :: nat

definition deepcopy :: "nat \<Rightarrow> heap \<Rightarrow> nat \<times> heap" where
  "deepcopy xs h = (fresh h, h\<lparr>cells := (cells h)(fresh h := cells h xs), fresh := Suc (fresh h)\<rparr>)"

definition list_append :: "nat \<Rightarrow> message \<Rightarrow> heap \<Rightarrow> heap" where
  "list_append xs m h = h\<lparr>cells := (cells h)(xs := cells h xs @ [m])\<rparr>"

text \<open>
  The pieces of the prompt: \<open>context_text\<close>, the system message and the user message with
  the template \<^verbatim>\<open>f"Context:\n{context_text}\n\nQuestion: {user_query}"\<close>.
\<close>

definition join_context :: "string list \<Rightarrow> string" where
  "join_context context_chunks = (if context_chunks \<noteq> [] then str_join NL context_chunks else [])"

definition system_message :: message where
  "system_message = \<lparr>role = ''system'', content = Some
     (''You are a helpful assistant. Use the provided context to answer questions accurately. ''
      @ ''If the context is insufficient, give the most careful, concise answer possible. ''
      @ ''Do not hallucinate beyond the context.'')\<rparr>"

definition question_message :: "string \<Rightarrow> string \<Rightarrow> message" where
  "question_message context_text user_query = \<lparr>role = ''user'', content = Some
     (''Context:'' @ NL @ context_text @ NL @ NL @ ''Question: '' @ user_query)\<rparr>"

text \<open>
  \<^verbatim>\<open>
  def generate_answer(user_query, chat_history):
      context_chunks = get_top_chunks(user_query, top_k=10)
      context_text = "\n".join(context_chunks) if context_chunks else ""
      messages = copy.deepcopy(chat_history)
      messages.append({"role": "system", "content": (...)})
      messages.append({"role": "user",
                       "content": f"Context:\n{context_text}\n\nQuestion: {user_query}"})
      try:
          response = openai.chat.completions.create(model=..., messages=messages,
                                                    temperature=0.2, max_tokens=1000)
          answer = response.choices[0].message.content
      except Exception as e:
          answer = f"Error generating response: {e}"
      chat_history.append({"role": "user", "content": user_query})
      chat_history.append({"role": "assistant", "content": answer})
      return answer, chat_history
  \<close>
  The model returns what the call returns or raises, and before it the heaps the call goes
  through, in order: the heap it starts in, then the heap after each statement that touches a
  list. The last heap of the list is the heap at the moment the call returns or raises. The
  call to \<open>get_top_chunks\<close> is outside the \<^verbatim>\<open>try\<close>, so an exception of the search leaves
  \<open>generate_answer\<close>; the chat model is called in the fourth heap, on the working copy. The
  handler is \<^verbatim>\<open>except Exception\<close>: an exception of the chat model that derives from
  \<^verbatim>\<open>Exception\<close> becomes the answer text, and any other one leaves \<open>generate_answer\<close> from
  the fourth heap. The answer is a string or \<^verbatim>\<open>None\<close>, as the content of the completion is.
\<close>

definition generate_answer ::
  "chat_services \<Rightarrow> string \<Rightarrow> nat \<Rightarrow> heap \<Rightarrow> heap list \<times> (exn + string option \<times> nat)" where
  "generate_answer sv user_query chat_history h0 =
     (case get_top_chunks sv user_query 10 of
        Inl e \<Rightarrow> ([h0], Inl e)
      | Inr context_chunks \<Rightarrow>
          (let context_text = join_context context_chunks;
               (messages, h1) = deepcopy chat_history h0;
               h2 = list_append messages system_message h1;
               h3 = list_append messages (question_message context_text user_query) h2;
               update_chat_history = (\<lambda>answer.
                 let h4 = list_append chat_history \<lparr>role = ''user'', content = Some user_query\<rparr> h3;
                     h5 = list_append chat_history \<lparr>role = ''assistant'', content = answer\<rparr> h4
                 in ([h0, h1, h2, h3, h4, h5], Inr (answer, chat_history)))
           in case chat_completions_create sv (cells h3 messages) of
                Inr content' \<Rightarrow> update_chat_history content'
              | Inl e \<Rightarrow>
                  if is_Exception e
                  then update_chat_history (Some (''Error generating response: '' @ exn_str e))
                  else ([h0, h1, h2, h3], Inl e)))"

section \<open>Sample inputs\<close>

text \<open>A text of a thousand words, to run the chunker on.\<close>

definition thousand_words :: string where
  "thousand_words = str_join '' '' (replicate 1000 ''w'')"

text \<open>
  A container with three PDF blobs, and services in which the PDF reader rejects the bytes of
  the second one and every other call succeeds. A page is its own text, the embedding of a
  chunk is its length, and the \<open>n\<close>-th identifier is \<open>n + 1\<close> letters \<open>u\<close>.
\<close>

definition corrupt_second_services :: "(string, nat) ingest_services" where
  "corrupt_second_services = \<lparr>
     download_blob = (\<lambda>blob. Inr (data blob)),
     pdf_reader = (\<lambda>blob_data. if blob_data = ''corrupt''
        then Inl (Exception ''PdfReadError'' ''EOF marker not found'') else Inr [blob_data]),
     extract_text = (\<lambda>page. Inr page),
     embeddings_create = (\<lambda>chunk. Inr (length chunk)),
     uuid4 = (\<lambda>n. replicate (Suc n) CHR ''u''),
     upload_documents = (\<lambda>documents. None)\<rparr>"

definition three_blobs :: "blob list" where
  "three_blobs = [\<lparr>name = ''a.pdf'', data = ''alpha beta''\<rparr>,
                  \<lparr>name = ''b.pdf'', data = ''corrupt''\<rparr>,
                  \<lparr>name = ''c.pdf'', data = ''gamma''\<rparr>]"

definition empty_world :: "nat world" where
  "empty_world = \<lparr>index = [], stdout = [], uuids_drawn = 0\<rparr>"

text \<open>
  A heap with one list, the empty chat history at reference 0, and four sets of chat
  services: a search without results and a chat model whose completion has the content
  \<open>reply\<close>; a search that raises; two search results, one of them without content, and a chat
  model that raises an exception deriving from \<^verbatim>\<open>Exception\<close>; a search without results and
  a call of the chat model that is interrupted from the keyboard.
\<close>

definition empty_heap :: heap where
  "empty_heap = \<lparr>cells = (\<lambda>_. []), fresh = 1\<rparr>"

definition no_results_chat :: "string option \<Rightarrow> chat_services" where
  "no_results_chat reply = \<lparr>search = (\<lambda>query top_k. Inr []),
     chat_completions_create = (\<lambda>messages. Inr reply)\<rparr>"

definition search_down_chat :: chat_services where
  "search_down_chat = \<lparr>search = (\<lambda>query top_k. Inl (Exception ''HttpResponseError'' ''service unavailable'')),
     chat_completions_create = (\<lambda>messages. Inr (Some ''hi''))\<rparr>"

definition model_down_chat :: chat_services where
  "model_down_chat = \<lparr>search = (\<lambda>query top_k. Inr [[''content'' \<mapsto> ''manual page 1''], Map.empty]),
     chat_completions_create = (\<lambda>messages. Inl (Exception ''RateLimitError'' ''quota exceeded''))\<rparr>"

definition interrupted_chat :: chat_services where
  "interrupted_chat = \<lparr>search = (\<lambda>query top_k. Inr []),
     chat_completions_create = (\<lambda>messages. Inl (BaseException ''KeyboardInterrupt'' []))\<rparr>"

section \<open>Splitting, joining and slicing\<close>

lemma isspace_blank: "isspace CHR '' ''"
  by (simp add: isspace_def)

lemma split_from_wordlike:
  assumes "\<forall>c\<in>set word. \<not> isspace c" and "w \<in> set (split_from word cs)"
  shows "w \<noteq> [] \<and> (\<forall>c\<in>set w. \<not> isspace c)"
  using assms
proof (induction cs arbitrary: word)
  case Nil
  then show ?case by (auto split: if_splits)
next
  case (Cons c cs)
  show ?case
  proof (cases "isspace c")
    case True
    with Cons.prems(2) have "(w = word \<and> word \<noteq> []) \<or> w \<in> set (split_from [] cs)"
      by (auto split: if_splits)
    then show ?thesis using Cons.IH [of "[]"] Cons.prems(1) by auto
  next
    case False
    with Cons.prems(2) have "w \<in> set (split_from (word @ [c]) cs)" by simp
    moreover have "\<forall>x\<in>set (word @ [c]). \<not> isspace x" using False Cons.prems(1) by simp
    ultimately show ?thesis by (rule Cons.IH [rotated])
  qed
qed

lemma str_split_wordlike:
  "w \<in> set (str_split text) \<Longrightarrow> w \<noteq> [] \<and> (\<forall>c\<in>set w. \<not> isspace c)"
  unfolding str_split_def by (rule split_from_wordlike [of "[]"]) simp_all

lemma split_from_word:
  "\<forall>c\<in>set w. \<not> isspace c \<Longrightarrow> split_from word (w @ rest) = split_from (word @ w) rest"
  by (induction w arbitrary: word) simp_all

lemma split_from_join:
  assumes "\<forall>w\<in>set xs. w \<noteq> [] \<and> (\<forall>c\<in>set w. \<not> isspace c)"
  shows "split_from [] (str_join '' '' xs) = xs"
  using assms
proof (induction "'' ''" xs rule: str_join.induct)
  case 1
  show ?case by simp
next
  case (2 x)
  then have "split_from [] (x @ []) = split_from ([] @ x) []" by (intro split_from_word) simp
  with 2 show ?case by simp
next
  case (3 x y ys)
  then have "split_from [] (x @ ('' '' @ str_join '' '' (y # ys)))
      = split_from ([] @ x) ('' '' @ str_join '' '' (y # ys))"
    by (intro split_from_word) simp
  with 3 show ?case by (simp add: isspace_blank)
qed

lemma str_split_join:
  "\<forall>w\<in>set xs. w \<noteq> [] \<and> (\<forall>c\<in>set w. \<not> isspace c)
    \<Longrightarrow> str_split (str_join '' '' xs) = xs"
  unfolding str_split_def by (rule split_from_join)

lemma py_slice_window:
  "0 < C \<Longrightarrow> py_slice xs (int i) (int i + C) = take (nat C) (drop i xs)"
  by (cases "i \<le> length xs")
    (auto simp: py_slice_def slice_index_def Let_def min_def nat_add_distrib)

lemma window_wordlike:
  "w \<in> set (take m (drop i (str_split text))) \<Longrightarrow> w \<noteq> [] \<and> (\<forall>c\<in>set w. \<not> isspace c)"
  by (meson in_set_dropD in_set_takeD str_split_wordlike)

lemma str_split_window:
  "str_split (str_join '' '' (take m (drop i (str_split text)))) = take m (drop i (str_split text))"
  by (rule str_split_join) (blast dest: window_wordlike)

section \<open>The chunking loop\<close>

lemma chunk_loop_done: "int (length ws) \<le> s \<Longrightarrow> chunk_loop ws C V s acc = Some acc"
  by (subst chunk_loop.simps) simp

text \<open>When the step \<open>chunk_size - overlap\<close> is not positive, the loop returns only from a
  state where it has nothing left to do.\<close>

lemma chunk_loop_returns_only_past_end:
  assumes "chunk_loop ws C V s acc = Some r"
  shows "C \<le> V \<longrightarrow> int (length ws) \<le> s"
proof (rule chunk_loop.raw_induct
    [where P = "\<lambda>ws C V s acc r. C \<le> V \<longrightarrow> int (length ws) \<le> s", OF _ assms], goal_cases)
  case (1 loop ws C V s acc r)
  show ?case
  proof (cases "s < int (length ws)")
    case True
    with 1 have "C \<le> V \<longrightarrow> int (length ws) \<le> s + (C - V)" by simp
    with True show ?thesis by simp
  next
    case False
    then show ?thesis by simp
  qed
qed

lemma chunk_loop_diverges:
  assumes "C \<le> V" and "s < int (length ws)"
  shows "chunk_loop ws C V s acc = None"
proof (cases "chunk_loop ws C V s acc")
  case None
  then show ?thesis .
next
  case (Some r)
  from chunk_loop_returns_only_past_end [OF Some] assms show ?thesis by simp
qed

lemma ceil_div_step:
  fixes n s step :: nat
  assumes "0 < step" "s < n"
  shows "(n - s + step - 1) div step = Suc ((n - (s + step) + step - 1) div step)"
proof (cases "s + step \<le> n")
  case True
  then have "n - s + step - 1 = (n - (s + step) + step - 1) + step" using assms by simp
  then show ?thesis using assms by (simp only: div_add_self2)
next
  case False
  then have z: "n - (s + step) = 0" by simp
  obtain d where d: "n - s = Suc d" "d < step" using assms False by (cases "n - s") auto
  then have "n - s + step - 1 = d + step" by simp
  moreover have "(d + step) div step = d div step + 1"
    using assms(1) by (simp only: div_add_self2)
  ultimately have "(n - s + step - 1) div step = 1" using d by simp
  then show ?thesis using assms z by simp
qed

text \<open>With a positive step the loop returns, and its result has a closed form: one chunk
  per start index \<open>s, s + step, s + 2 * step, \<dots>\<close> below the word count.\<close>

lemma chunk_loop_closed:
  assumes "0 < step" and "C - V = int step"
  shows "chunk_loop ws C V (int s) acc =
     Some (acc @ map (\<lambda>k. str_join '' '' (py_slice ws (int (s + k * step)) (int (s + k * step) + C)))
       [0..<(length ws - s + step - 1) div step])"
proof (induction "length ws - s" arbitrary: s acc rule: less_induct)
  case less
  let ?piece = "\<lambda>i. str_join '' '' (py_slice ws (int i) (int i + C))"
  show ?case
  proof (cases "s < length ws")
    case False
    then have "(length ws - s + step - 1) div step = 0" using assms(1) by simp
    with False show ?thesis by (simp add: chunk_loop_done)
  next
    case True
    have lt: "length ws - (s + step) < length ws - s" using True assms(1) by simp
    have "chunk_loop ws C V (int s) acc = chunk_loop ws C V (int (s + step)) (acc @ [?piece s])"
      using True assms(2) by (subst chunk_loop.simps) simp
    also have "\<dots> = Some ((acc @ [?piece s]) @
        map (\<lambda>k. ?piece (s + step + k * step)) [0..<(length ws - (s + step) + step - 1) div step])"
      by (rule less [OF lt])
    also have "\<dots> = Some (acc @ map (\<lambda>k. ?piece (s + k * step))
        [0..<Suc ((length ws - (s + step) + step - 1) div step)])"
    proof -
      have "\<And>k. s + step + k * step = s + Suc k * step" by simp
      then show ?thesis by (simp only: map_upt_Suc append_assoc append_Cons append_Nil
            mult_0 add_0_right o_def list.map)
    qed
    finally show ?thesis by (simp only: ceil_div_step [OF assms(1) True])
  qed
qed

lemma chunk_text_closed:
  assumes "0 < C" "0 \<le> V" "V < C"
  shows "chunk_text T C V =
     Some (map (\<lambda>k. str_join '' '' (take (nat C) (drop (k * nat (C - V)) (str_split T))))
       [0..<(length (str_split T) + nat (C - V) - 1) div nat (C - V)])"
proof -
  define step where "step = nat (C - V)"
  have step: "0 < step" "C - V = int step" using assms by (simp_all add: step_def)
  have "chunk_loop (str_split T) C V (int 0) [] =
     Some ([] @ map (\<lambda>k. str_join '' '' (py_slice (str_split T) (int (0 + k * step)) (int (0 + k * step) + C)))
       [0..<(length (str_split T) - 0 + step - 1) div step])"
    by (rule chunk_loop_closed [OF step])
  then have "chunk_text T C V =
     Some (map (\<lambda>k. str_join '' '' (take (nat C) (drop (k * step) (str_split T))))
       [0..<(length (str_split T) + step - 1) div step])"
    by (simp only: chunk_text_def py_slice_window [OF assms(1)] add_0 diff_zero append_Nil int_ops(1))
  then show ?thesis by (simp only: step_def)
qed

lemma concat_steps:
  assumes "0 < step"
  shows "concat (map (\<lambda>k. take step (drop (k * step) xs)) [0..<(length xs + step - 1) div step]) = xs"
proof (induction "length xs" arbitrary: xs rule: less_induct)
  case less
  show ?case
  proof (cases "xs = []")
    case True
    then show ?thesis by simp
  next
    case False
    let ?m = "(length (drop step xs) + step - 1) div step"
    have m: "(length xs + step - 1) div step = Suc ?m"
      using ceil_div_step [OF assms, of 0 "length xs"] False by simp
    have shorter: "length (drop step xs) < length xs" using False assms by simp
    have "concat (map (\<lambda>k. take step (drop (k * step) xs)) [0..<Suc ?m])
        = take step xs @ concat (map (\<lambda>k. take step (drop (k * step) (drop step xs))) [0..<?m])"
      by (simp add: map_upt_Suc add.commute del: upt_Suc)
    also have "\<dots> = take step xs @ drop step xs"
      by (simp only: less [OF shorter])
    finally have "concat (map (\<lambda>k. take step (drop (k * step) xs)) [0..<Suc ?m]) = xs"
      by (simp only: append_take_drop_id)
    then show ?thesis by (simp only: m)
  qed
qed

lemma ceil_div_bounds:
  fixes n step :: nat
  assumes "0 < step"
  shows "n \<le> ((n + step - 1) div step) * step"
    and "k < (n + step - 1) div step \<Longrightarrow> k * step < n"
proof -
  let ?m = "(n + step - 1) div step"
  have eq: "?m * step + (n + step - 1) mod step = n + step - 1" by simp
  have r: "(n + step - 1) mod step < step" using assms by simp
  show "n \<le> ?m * step" using eq r by linarith
  assume k: "k < ?m"
  have le: "?m * step \<le> n + step - 1" using eq by linarith
  from k have "Suc k * step \<le> ?m * step" by (intro mult_le_mono1) simp
  then have "k * step + step \<le> ?m * step" by simp
  with le have "k * step + step \<le> n + step - 1" by linarith
  then show "k * step < n" using assms by linarith
qed

lemma upt_3: "[0..<3] = [0, 1, 2]"
  by (simp add: upt_rec)

lemma chunk_text_default_1000:
  assumes "length (str_split T) = 1000"
  shows "chunk_text T 500 50 =
    Some [str_join '' '' (take 500 (str_split T)),
          str_join '' '' (take 500 (drop 450 (str_split T))),
          str_join '' '' (take 500 (drop 900 (str_split T)))]"
proof -
  have "chunk_text T 500 50 =
     Some (map (\<lambda>k. str_join '' '' (take (nat 500) (drop (k * nat (500 - 50)) (str_split T))))
       [0..<(length (str_split T) + nat (500 - 50) - 1) div nat (500 - 50)])"
    by (rule chunk_text_closed) simp_all
  then show ?thesis by (simp add: assms upt_3)
qed

lemma str_split_prefix:
  "str_split (str_join '' '' (take m (str_split text))) = take m (str_split text)"
  using str_split_window [of m 0 "text"] by simp

lemma chunk_text_general:
  assumes "0 < C" "0 \<le> V" "V < C"
  shows "\<exists>chunks. chunk_text T C V = Some chunks
     \<and> (\<forall>k<length chunks. k * nat (C - V) < length (str_split T)
           \<and> str_split (chunks ! k) = take (nat C) (drop (k * nat (C - V)) (str_split T)))
     \<and> length (str_split T) \<le> length chunks * nat (C - V)"
proof -
  have step: "0 < nat (C - V)" using assms by simp
  show ?thesis
    by (simp add: chunk_text_closed [OF assms] str_split_window ceil_div_bounds [OF step]
        del: One_nat_def)
qed

lemma sublist_window: "sublist (take m (drop i xs)) xs"
  by (meson sublist_drop sublist_order.order_trans sublist_take)

lemma thousand_words_length: "length (str_split thousand_words) = 1000"
  by (simp add: thousand_words_def str_split_join isspace_def)

section \<open>Claims about chunking\<close>

text \<open>
  C10. For every text and every \<open>chunk_size > 0\<close>, \<open>0 \<le> overlap < chunk_size\<close>, the chunking
  loop terminates: \<open>chunk_text\<close> returns a list of chunks. The start index grows by the positive
  step \<open>chunk_size - overlap\<close> in each iteration, so the loop runs once per multiple of the step
  below the word count \<open>n\<close>, which is \<open>\<lceil>n / step\<rceil>\<close> iterations, each appending one chunk.
\<close>

theorem chunk_text_terminates:
  assumes "0 < C" "0 \<le> V" "V < C"
  shows "\<exists>chunks. chunk_text T C V = Some chunks
     \<and> length chunks = (length (str_split T) + nat (C - V) - 1) div nat (C - V)"
  by (simp add: chunk_text_closed [OF assms])

theorem chunk_text_terminates_witness:
  "(0::int) < 3 \<and> (0::int) \<le> 1 \<and> (1::int) < 3
   \<and> (\<exists>chunks. chunk_text ''a b c d e f g'' 3 1 = Some chunks \<and> length chunks = 4)"
proof -
  have n: "length (str_split ''a b c d e f g'') = 7"
    by (simp add: str_split_def isspace_def)
  show ?thesis
    using chunk_text_terminates [of 3 1 "''a b c d e f g''"] by (simp add: n)
qed

text \<open>
  C1 (as stated: for every text and every \<open>overlap \<ge> chunk_size\<close>, chunking fails with a
  ConfigurationError). \<open>chunk_text\<close> has no check of its parameters and raises nothing. With
  \<open>chunk_size = overlap = 100\<close>, the example of the specification, the empty text is chunked
  into the empty list, a normal return, and on the text \<open>one two\<close> the loop adds the step 0 to
  \<open>start\<close> for ever and the call never returns.
\<close>

theorem chunk_text_unguarded_counterexample:
  "chunk_text '''' 100 100 = Some [] \<and> chunk_text ''one two'' 100 100 = None"
  by (simp add: chunk_text_def str_split_def isspace_def chunk_loop_done chunk_loop_diverges)

text \<open>
  C1 (amended). For every text and every \<open>overlap \<ge> chunk_size\<close>, chunking checks nothing
  and reports no configuration error: it returns the empty list when the text has no word, and
  it does not return when the text has a word (the start index never reaches the word count).
\<close>

theorem chunk_text_overlap_not_below_size:
  "C \<le> V \<Longrightarrow> chunk_text T C V = (if str_split T = [] then Some [] else None)"
  by (simp add: chunk_text_def chunk_loop_done chunk_loop_diverges)

theorem chunk_text_overlap_not_below_size_witness:
  "(50::int) \<le> 80 \<and> chunk_text ''x y z'' 50 80 = None"
  using chunk_text_overlap_not_below_size [of 50 80 "''x y z''"]
  by (simp add: str_split_def isspace_def)

text \<open>
  C6. Chunking a text of 1000 words with \<open>chunk_size = 500\<close> and \<open>overlap = 50\<close> gives exactly
  three chunks; read back as words they start with the words at offsets 0, 450 and 900 of the
  text, and the third has 100 words, fewer than 500. In general, for \<open>chunk_size > 0\<close> and
  \<open>0 \<le> overlap < chunk_size\<close>, the \<open>k\<close>-th chunk holds the (at most \<open>chunk_size\<close>) words from
  offset \<open>k * (chunk_size - overlap)\<close> on, every such offset is below the word count, and the
  offset after the last chunk's has reached the word count.
\<close>

theorem chunk_text_start_offsets:
  "(length (str_split T) = 1000 \<longrightarrow>
      (\<exists>c0 c1 c2. chunk_text T 500 50 = Some [c0, c1, c2]
         \<and> str_split c0 = take 500 (str_split T)
         \<and> str_split c1 = take 500 (drop 450 (str_split T))
         \<and> str_split c2 = drop 900 (str_split T)
         \<and> hd (str_split c0) = str_split T ! 0
         \<and> hd (str_split c1) = str_split T ! 450
         \<and> hd (str_split c2) = str_split T ! 900
         \<and> length (str_split c0) = 500 \<and> length (str_split c1) = 500
         \<and> length (str_split c2) = 100))
   \<and> (0 < C \<and> 0 \<le> V \<and> V < C \<longrightarrow>
      (\<exists>chunks. chunk_text T C V = Some chunks
         \<and> (\<forall>k<length chunks. k * nat (C - V) < length (str_split T)
               \<and> str_split (chunks ! k) = take (nat C) (drop (k * nat (C - V)) (str_split T)))
         \<and> length (str_split T) \<le> length chunks * nat (C - V)))"
proof (intro conjI impI)
  assume n: "length (str_split T) = 1000"
  have last: "take 500 (drop 900 (str_split T)) = drop 900 (str_split T)" using n by simp
  have "hd (take 500 (str_split T)) = str_split T ! 0"
    "hd (take 500 (drop 450 (str_split T))) = str_split T ! 450"
    "hd (drop 900 (str_split T)) = str_split T ! 900"
    using n by (simp_all add: hd_drop_conv_nth hd_conv_nth length_greater_0_conv [symmetric]
        del: length_greater_0_conv)
  then show "\<exists>c0 c1 c2. chunk_text T 500 50 = Some [c0, c1, c2]
         \<and> str_split c0 = take 500 (str_split T)
         \<and> str_split c1 = take 500 (drop 450 (str_split T))
         \<and> str_split c2 = drop 900 (str_split T)
         \<and> hd (str_split c0) = str_split T ! 0
         \<and> hd (str_split c1) = str_split T ! 450
         \<and> hd (str_split c2) = str_split T ! 900
         \<and> length (str_split c0) = 500 \<and> length (str_split c1) = 500
         \<and> length (str_split c2) = 100"
    using str_split_window [of 500 900 T]
    by (simp add: chunk_text_default_1000 [OF n] str_split_window str_split_prefix last n)
next
  assume "0 < C \<and> 0 \<le> V \<and> V < C"
  then show "\<exists>chunks. chunk_text T C V = Some chunks
         \<and> (\<forall>k<length chunks. k * nat (C - V) < length (str_split T)
               \<and> str_split (chunks ! k) = take (nat C) (drop (k * nat (C - V)) (str_split T)))
         \<and> length (str_split T) \<le> length chunks * nat (C - V)"
    by (intro chunk_text_general) simp_all
qed

theorem chunk_text_start_offsets_witness:
  "length (str_split thousand_words) = 1000 \<and> (0::int) < 500 \<and> (0::int) \<le> 50 \<and> (50::int) < 500
   \<and> (\<exists>c0 c1 c2. chunk_text thousand_words 500 50 = Some [c0, c1, c2]
         \<and> hd (str_split c0) = str_split thousand_words ! 0
         \<and> hd (str_split c1) = str_split thousand_words ! 450
         \<and> hd (str_split c2) = str_split thousand_words ! 900
         \<and> length (str_split c2) = 100)"
  using chunk_text_start_offsets [of thousand_words 500 50] thousand_words_length
  by auto

text \<open>
  C7. For every text (empty or not) and \<open>chunk_size > 0\<close>, \<open>0 \<le> overlap < chunk_size\<close>: every
  word of the text is a word of some chunk; the words of each chunk are a run of consecutive
  words of the text, in the text's order; and across chunks the order is the text's as well:
  the first \<open>chunk_size - overlap\<close> words of the chunks, one chunk after the other, are exactly
  the words of the text.
\<close>

theorem chunk_text_covers_in_order:
  assumes "0 < C" "0 \<le> V" "V < C"
  shows "\<exists>chunks. chunk_text T C V = Some chunks
     \<and> (\<forall>w\<in>set (str_split T). \<exists>c\<in>set chunks. w \<in> set (str_split c))
     \<and> (\<forall>c\<in>set chunks. sublist (str_split c) (str_split T))
     \<and> concat (map (\<lambda>c. take (nat (C - V)) (str_split c)) chunks) = str_split T"
proof -
  let ?ws = "str_split T" and ?step = "nat (C - V)"
  let ?chunks = "map (\<lambda>k. str_join '' '' (take (nat C) (drop (k * ?step) ?ws)))
       [0..<(length ?ws + ?step - 1) div ?step]"
  have step: "0 < ?step" "?step \<le> nat C" using assms by simp_all
  have res: "chunk_text T C V = Some ?chunks" by (rule chunk_text_closed [OF assms])
  have "map (\<lambda>c. take ?step (str_split c)) ?chunks
      = map (\<lambda>k. take ?step (drop (k * ?step) ?ws)) [0..<(length ?ws + ?step - 1) div ?step]"
    using step(2) by (simp add: str_split_window o_def min_def)
  then have cover: "concat (map (\<lambda>c. take ?step (str_split c)) ?chunks) = ?ws"
    by (simp only: concat_steps [OF step(1)])
  have "\<exists>c\<in>set ?chunks. w \<in> set (str_split c)" if "w \<in> set ?ws" for w
  proof -
    from that cover have "w \<in> set (concat (map (\<lambda>c. take ?step (str_split c)) ?chunks))"
      by (simp only:)
    then obtain c where "c \<in> set ?chunks" "w \<in> set (take ?step (str_split c))" by auto
    then show ?thesis by (blast dest: in_set_takeD)
  qed
  moreover have "\<forall>c\<in>set ?chunks. sublist (str_split c) ?ws"
    by (auto simp: str_split_window sublist_window)
  ultimately show ?thesis using res cover by blast
qed

theorem chunk_text_covers_in_order_witness:
  "(0::int) < 3 \<and> (0::int) \<le> 1 \<and> (1::int) < 3
   \<and> chunk_text ''a b c d e f g'' 3 1 = Some [''a b c'', ''c d e'', ''e f g'', ''g'']
   \<and> (\<exists>chunks. chunk_text ''a b c d e f g'' 3 1 = Some chunks
        \<and> concat (map (\<lambda>c. take 2 (str_split c)) chunks)
            = [''a'', ''b'', ''c'', ''d'', ''e'', ''f'', ''g''])"
proof -
  have ev: "chunk_text ''a b c d e f g'' 3 1 = Some [''a b c'', ''c d e'', ''e f g'', ''g'']"
    by code_simp
  have sp: "str_split ''a b c d e f g'' = [''a'', ''b'', ''c'', ''d'', ''e'', ''f'', ''g'']"
    by (simp add: str_split_def isspace_def)
  show ?thesis
    using chunk_text_covers_in_order [of 3 1 "''a b c d e f g''"] ev sp by simp
qed

section \<open>The ingestion loop\<close>

lemma process_blobs_append:
  "process_blobs sv done w = Some (w', None)
    \<Longrightarrow> process_blobs sv (done @ blobs) w = process_blobs sv blobs w'"
proof (induction "done" arbitrary: w)
  case Nil
  then show ?case by simp
next
  case (Cons blob "done")
  then show ?case by (auto split: option.splits prod.splits)
qed

lemma process_blob_extraction_fails:
  "endswith (name blob) ''.pdf'' \<Longrightarrow> read_pdf_from_blob sv blob = Inl e
    \<Longrightarrow> process_blob sv blob w = Some (w\<lparr>stdout := stdout w @ [Processing (name blob)]\<rparr>, Some e)"
  by (simp add: process_blob_def)

lemma three_blobs_reads:
  "read_pdf_from_blob corrupt_second_services \<lparr>name = ''a.pdf'', data = ''alpha beta''\<rparr>
     = Inr (''alpha beta'' @ NL)"
  "read_pdf_from_blob corrupt_second_services \<lparr>name = ''b.pdf'', data = ''corrupt''\<rparr>
     = Inl (Exception ''PdfReadError'' ''EOF marker not found'')"
  "read_pdf_from_blob corrupt_second_services \<lparr>name = ''c.pdf'', data = ''gamma''\<rparr>
     = Inr (''gamma'' @ NL)"
  by (simp_all add: read_pdf_from_blob_def corrupt_second_services_def)

lemma first_blob_processed:
  "process_blobs corrupt_second_services [\<lparr>name = ''a.pdf'', data = ''alpha beta''\<rparr>] empty_world
     = Some (\<lparr>index = [\<lparr>doc_id = ''u'', doc_content = ''alpha beta'', doc_embedding = 10\<rparr>],
              stdout = [Processing ''a.pdf'', Uploaded 1 ''a.pdf''], uuids_drawn = 1\<rparr>, None)"
  by code_simp

section \<open>Claim about ingestion\<close>

text \<open>
  C2 (as stated: when the extractor fails on one document, the pipeline skips it, records the
  failure and goes on with the remaining documents; of three documents of which the second
  fails, two are reported as successes and one as a failure). The loop has no \<^verbatim>\<open>try\<close>:
  the exception of the reader leaves \<open>read_pdf_from_blob\<close> and the loop, and ends the script.
  In the sample container the first and the third blob can be read and the second cannot. The
  run ends with the reader's exception after printing that it is processing \<open>b.pdf\<close>; the one
  upload it reports is the first blob's, and \<open>c.pdf\<close> is never processed: nothing of it is
  printed or uploaded.
\<close>

theorem process_blobs_skip_counterexample:
  "read_pdf_from_blob corrupt_second_services (three_blobs ! 0) = Inr (''alpha beta'' @ NL)
   \<and> read_pdf_from_blob corrupt_second_services (three_blobs ! 1)
       = Inl (Exception ''PdfReadError'' ''EOF marker not found'')
   \<and> read_pdf_from_blob corrupt_second_services (three_blobs ! 2) = Inr (''gamma'' @ NL)
   \<and> process_blobs corrupt_second_services three_blobs empty_world
       = Some (\<lparr>index = [\<lparr>doc_id = ''u'', doc_content = ''alpha beta'', doc_embedding = 10\<rparr>],
                stdout = [Processing ''a.pdf'', Uploaded 1 ''a.pdf'', Processing ''b.pdf''],
                uuids_drawn = 1\<rparr>,
               Some (Exception ''PdfReadError'' ''EOF marker not found''))"
  by code_simp

text \<open>
  C2 (amended). If extracting the text of a PDF blob fails, the ingestion stops there with
  that exception: the blobs before it have been processed and uploaded as usual, the script has
  printed that it is processing the failing blob, and nothing is uploaded or printed for the
  failing blob or for any blob after it. No report of the failure is made. For three documents
  of which the second fails, only the first one is uploaded.
\<close>

theorem process_blobs_stops_at_extraction_failure:
  assumes "endswith (name blob) ''.pdf''" and "read_pdf_from_blob sv blob = Inl e"
    and "process_blobs sv done w = Some (w', None)"
  shows "process_blobs sv (done @ blob # rest) w
     = Some (w'\<lparr>stdout := stdout w' @ [Processing (name blob)]\<rparr>, Some e)"
  by (simp add: process_blobs_append [OF assms(3)] process_blob_extraction_fails [OF assms(1,2)])

theorem process_blobs_stops_at_extraction_failure_witness:
  "endswith ''b.pdf'' ''.pdf''
   \<and> process_blobs corrupt_second_services
        ([\<lparr>name = ''a.pdf'', data = ''alpha beta''\<rparr>]
          @ \<lparr>name = ''b.pdf'', data = ''corrupt''\<rparr> # [\<lparr>name = ''c.pdf'', data = ''gamma''\<rparr>]) empty_world
       = Some (\<lparr>index = [\<lparr>doc_id = ''u'', doc_content = ''alpha beta'', doc_embedding = 10\<rparr>],
                stdout = [Processing ''a.pdf'', Uploaded 1 ''a.pdf'', Processing ''b.pdf''],
                uuids_drawn = 1\<rparr>,
               Some (Exception ''PdfReadError'' ''EOF marker not found''))"
proof -
  have pdf: "endswith (name \<lparr>name = ''b.pdf'', data = ''corrupt''\<rparr>) ''.pdf''"
    by (simp add: endswith_def)
  show ?thesis
    using process_blobs_stops_at_extraction_failure [OF pdf three_blobs_reads(2) first_blob_processed] pdf
    by simp
qed

section \<open>Answering a question\<close>

lemma get_top_chunks_search:
  "search sv q k = Inr results \<Longrightarrow> get_top_chunks sv q k = Inr (collect_contents results [])"
  "search sv q k = Inl e \<Longrightarrow> get_top_chunks sv q k = Inl e"
  by (simp_all add: get_top_chunks_def)

lemma generate_answer_raises:
  "get_top_chunks sv q 10 = Inl e \<Longrightarrow> generate_answer sv q r h = ([h], Inl e)"
  by (simp add: generate_answer_def)

text \<open>The call returns when the chat model returns a completion or raises an exception that
  derives from \<^verbatim>\<open>Exception\<close>.\<close>

lemma generate_answer_returns:
  assumes "get_top_chunks sv q 10 = Inr chunks" and "r < fresh h"
  defines "prompt \<equiv> cells h r @ [system_message, question_message (join_context chunks) q]"
  assumes caught: "\<And>e. chat_completions_create sv prompt = Inl e \<Longrightarrow> is_Exception e"
  defines "answer \<equiv> (case chat_completions_create sv prompt of
       Inr c \<Rightarrow> c | Inl e \<Rightarrow> Some (''Error generating response: '' @ exn_str e))"
  shows "\<exists>h1 h2 h3 h4 h5. generate_answer sv q r h = ([h, h1, h2, h3, h4, h5], Inr (answer, r))
    \<and> cells h1 r = cells h r \<and> cells h2 r = cells h r \<and> cells h3 r = cells h r
    \<and> cells h4 r = cells h r @ [\<lparr>role = ''user'', content = Some q\<rparr>]
    \<and> cells h5 r = cells h r @ [\<lparr>role = ''user'', content = Some q\<rparr>,
         \<lparr>role = ''assistant'', content = answer\<rparr>]
    \<and> cells h5 (fresh h) = prompt"
proof (cases "chat_completions_create sv prompt")
  case (Inl e)
  with caught have "is_Exception e" by simp
  with Inl assms(1,2) show ?thesis
    unfolding answer_def
    by (simp add: generate_answer_def deepcopy_def list_append_def Let_def prompt_def)
next
  case (Inr c)
  with assms(1,2) show ?thesis
    unfolding answer_def
    by (simp add: generate_answer_def deepcopy_def list_append_def Let_def prompt_def)
qed

text \<open>The call raises from the fourth heap when the chat model raises any other exception.\<close>

lemma generate_answer_interrupted:
  assumes "get_top_chunks sv q 10 = Inr chunks" and "r < fresh h"
    and "chat_completions_create sv
           (cells h r @ [system_message, question_message (join_context chunks) q]) = Inl e"
    and "\<not> is_Exception e"
  shows "\<exists>h1 h2 h3. generate_answer sv q r h = ([h, h1, h2, h3], Inl e)
    \<and> cells h1 r = cells h r \<and> cells h2 r = cells h r \<and> cells h3 r = cells h r"
  using assms
  by (simp add: generate_answer_def deepcopy_def list_append_def Let_def)

lemma generate_answer_cases:
  obtains (raises) e where "get_top_chunks sv q 10 = Inl e"
  | (interrupted) chunks e where "get_top_chunks sv q 10 = Inr chunks"
      "chat_completions_create sv
         (cells h r @ [system_message, question_message (join_context chunks) q]) = Inl e"
      "\<not> is_Exception e"
  | (returns) chunks where "get_top_chunks sv q 10 = Inr chunks"
      "\<And>e. chat_completions_create sv
         (cells h r @ [system_message, question_message (join_context chunks) q]) = Inl e
         \<Longrightarrow> is_Exception e"
proof (cases "get_top_chunks sv q 10")
  case (Inl e)
  then show ?thesis by (rule raises)
next
  case (Inr chunks)
  show ?thesis
  proof (cases "\<exists>e. chat_completions_create sv
         (cells h r @ [system_message, question_message (join_context chunks) q]) = Inl e
         \<and> \<not> is_Exception e")
    case True
    then show ?thesis using Inr interrupted by blast
  next
    case False
    then show ?thesis using Inr returns by blast
  qed
qed

lemma question_message_not_bare:
  "question_message ctx q \<noteq> \<lparr>role = r, content = Some q\<rparr>"
proof
  assume "question_message ctx q = \<lparr>role = r, content = Some q\<rparr>"
  then have "content (question_message ctx q) = Some q" by simp
  then have "map_option length (content (question_message ctx q)) = Some (length q)" by simp
  then show False by (simp add: question_message_def)
qed

lemma generate_answer_no_results_chat:
  "generate_answer (no_results_chat reply) ''q'' 0 empty_heap
    = (fst (generate_answer (no_results_chat reply) ''q'' 0 empty_heap), Inr (reply, 0))"
  by (simp add: generate_answer_def get_top_chunks_def no_results_chat_def Let_def deepcopy_def)

section \<open>Claims about answering\<close>




text \<open>
  C4 (as stated: if the query of the index fails, the answer operation falls back to an empty
  context and still answers). \<open>get_top_chunks\<close> is called outside the \<^verbatim>\<open>try\<close> block and has
  none of its own; with a search that raises, \<open>generate_answer\<close> raises the same exception and
  gives no answer.
\<close>



text \<open>
  C4 (amended). For every query, if the query of the index fails, the answer operation fails
  with the same exception: it produces no answer, whatever the chat model would say, and it
  leaves the heap, and with it the caller's history, unchanged.
\<close>

theorem generate_answer_search_failure_counterexample:
  "generate_answer search_down_chat ''q'' 0 empty_heap
     = ([empty_heap], Inl (Exception ''HttpResponseError'' ''service unavailable''))"
  by (simp add: generate_answer_def get_top_chunks_def search_down_chat_def)

theorem generate_answer_search_failure:
  "search sv q 10 = Inl e \<Longrightarrow> generate_answer sv q r h = ([h], Inl e)"
  by (simp add: generate_answer_raises get_top_chunks_search)

theorem generate_answer_search_failure_witness:
  "search search_down_chat ''why'' 10 = Inl (Exception ''HttpResponseError'' ''service unavailable'')
   \<and> generate_answer search_down_chat ''why'' 0 empty_heap
       = ([empty_heap], Inl (Exception ''HttpResponseError'' ''service unavailable''))"
  using generate_answer_search_failure
    [of search_down_chat "''why''" "Exception ''HttpResponseError'' ''service unavailable''" 0 empty_heap]
  by (simp add: search_down_chat_def)

text \<open>
  C5 (as stated: if the chat model fails for any reason, no exception reaches the caller, the
  answer carries the reason and both messages are appended). The handler is
  \<^verbatim>\<open>except Exception\<close>. When the call of the chat model ends with an exception that does
  not derive from \<^verbatim>\<open>Exception\<close>, here a \<^verbatim>\<open>KeyboardInterrupt\<close>, that exception leaves
  \<open>generate_answer\<close>, and the history stays empty.
\<close>

theorem generate_answer_interrupt_counterexample:
  "search interrupted_chat ''q'' 10 = Inr []
   \<and> chat_completions_create interrupted_chat [system_message, question_message [] ''q'']
       = Inl (BaseException ''KeyboardInterrupt'' [])
   \<and> snd (generate_answer interrupted_chat ''q'' 0 empty_heap)
       = Inl (BaseException ''KeyboardInterrupt'' [])
   \<and> cells (last (fst (generate_answer interrupted_chat ''q'' 0 empty_heap))) 0 = []"
  by (simp add: generate_answer_def get_top_chunks_def interrupted_chat_def empty_heap_def
      deepcopy_def list_append_def Let_def)

text \<open>
  C5 (amended). For every query and history, if the chat model fails on the prompt (which it
  is given once the search has returned) with an exception that derives from
  \<^verbatim>\<open>Exception\<close>, the answer operation returns normally: the answer is the text
  \<open>Error generating response: \<close> followed by the text of the exception, and the caller's
  history has grown by the user message with the query and the assistant message with that
  answer. If the exception does not derive from \<^verbatim>\<open>Exception\<close>, it reaches the caller and
  the history is unchanged.
\<close>

theorem generate_answer_model_failure:
  assumes "r < fresh h" and "search sv q 10 = Inr results"
    and "chat_completions_create sv
           (cells h r @ [system_message, question_message (join_context (collect_contents results [])) q])
         = Inl e"
  shows "(is_Exception e \<longrightarrow>
           (\<exists>tr. generate_answer sv q r h
                   = (tr, Inr (Some (''Error generating response: '' @ exn_str e), r))
              \<and> cells (last tr) r = cells h r @ [\<lparr>role = ''user'', content = Some q\<rparr>,
                   \<lparr>role = ''assistant'',
                    content = Some (''Error generating response: '' @ exn_str e)\<rparr>]))
     \<and> (\<not> is_Exception e \<longrightarrow>
           (\<exists>tr. generate_answer sv q r h = (tr, Inl e) \<and> cells (last tr) r = cells h r))"
proof (intro conjI impI)
  assume "is_Exception e"
  with assms(3) have "\<And>e'. chat_completions_create sv
      (cells h r @ [system_message, question_message (join_context (collect_contents results [])) q])
      = Inl e' \<Longrightarrow> is_Exception e'" by simp
  from generate_answer_returns [OF get_top_chunks_search(1) [OF assms(2)] assms(1) this] assms(3)
  show "\<exists>tr. generate_answer sv q r h
                   = (tr, Inr (Some (''Error generating response: '' @ exn_str e), r))
              \<and> cells (last tr) r = cells h r @ [\<lparr>role = ''user'', content = Some q\<rparr>,
                   \<lparr>role = ''assistant'',
                    content = Some (''Error generating response: '' @ exn_str e)\<rparr>]"
    by auto
next
  assume "\<not> is_Exception e"
  from generate_answer_interrupted [OF get_top_chunks_search(1) [OF assms(2)] assms(1,3) this]
  show "\<exists>tr. generate_answer sv q r h = (tr, Inl e) \<and> cells (last tr) r = cells h r"
    by auto
qed

theorem generate_answer_model_failure_witness:
  "0 < fresh empty_heap
   \<and> is_Exception (Exception ''RateLimitError'' ''quota exceeded'')
   \<and> (\<exists>tr. generate_answer model_down_chat ''q'' 0 empty_heap
          = (tr, Inr (Some ''Error generating response: quota exceeded'', 0))
        \<and> cells (last tr) 0 = [\<lparr>role = ''user'', content = Some ''q''\<rparr>,
            \<lparr>role = ''assistant'', content = Some ''Error generating response: quota exceeded''\<rparr>])"
proof -
  have v: "0 < fresh empty_heap" by (simp add: empty_heap_def)
  have s: "search model_down_chat ''q'' 10 = Inr [[''content'' \<mapsto> ''manual page 1''], Map.empty]"
    by (simp add: model_down_chat_def)
  have c: "chat_completions_create model_down_chat
      (cells empty_heap 0 @ [system_message, question_message
         (join_context (collect_contents [[''content'' \<mapsto> ''manual page 1''], Map.empty] [])) ''q''])
      = Inl (Exception ''RateLimitError'' ''quota exceeded'')"
    by (simp add: model_down_chat_def)
  show ?thesis
    using generate_answer_model_failure [OF v s c] v by (simp add: empty_heap_def)
qed

text \<open>
  C8 (as stated: when the index returns zero results the answer is a non-empty string, and
  the history grows by the bare user message and the assistant answer). The answer is the
  content of the completion, whatever it is: with no results and a completion whose content is
  the empty string, the answer is the empty string, and with a completion whose content is
  \<^verbatim>\<open>None\<close> the answer is \<^verbatim>\<open>None\<close>.
\<close>

theorem generate_answer_empty_answer_counterexample:
  "search (no_results_chat (Some [])) ''q'' 10 = Inr []
   \<and> snd (generate_answer (no_results_chat (Some [])) ''q'' 0 empty_heap) = Inr (Some [], 0)
   \<and> snd (generate_answer (no_results_chat None) ''q'' 0 empty_heap) = Inr (None, 0)"
  by (simp add: generate_answer_def get_top_chunks_def no_results_chat_def Let_def deepcopy_def)

text \<open>
  C8 (amended). For every query and history, when the index returns zero results the chat
  model is asked with an empty context. If it returns a completion, the answer is the content
  of that completion as it comes (a string, possibly empty, or \<^verbatim>\<open>None\<close>); if it raises an
  exception that derives from \<^verbatim>\<open>Exception\<close>, the answer is the error text, which is not
  empty. In both cases the updated history has exactly two more messages than the input: the
  user message whose content is the bare query, followed by the assistant message with the
  answer. If the chat model raises any other exception, that exception reaches the caller
  and the history is unchanged.
\<close>

theorem generate_answer_no_results:
  assumes "r < fresh h" and "search sv q 10 = Inr []"
  shows "(\<forall>c. chat_completions_create sv (cells h r @ [system_message, question_message [] q]) = Inr c
            \<longrightarrow> (\<exists>tr. generate_answer sv q r h = (tr, Inr (c, r))
                  \<and> cells (last tr) r = cells h r @ [\<lparr>role = ''user'', content = Some q\<rparr>,
                        \<lparr>role = ''assistant'', content = c\<rparr>]
                  \<and> length (cells (last tr) r) = length (cells h r) + 2))
     \<and> (\<forall>e. chat_completions_create sv (cells h r @ [system_message, question_message [] q]) = Inl e
               \<and> is_Exception e
            \<longrightarrow> (\<exists>tr answer. generate_answer sv q r h = (tr, Inr (Some answer, r))
                  \<and> answer = ''Error generating response: '' @ exn_str e \<and> answer \<noteq> []
                  \<and> cells (last tr) r = cells h r @ [\<lparr>role = ''user'', content = Some q\<rparr>,
                        \<lparr>role = ''assistant'', content = Some answer\<rparr>]
                  \<and> length (cells (last tr) r) = length (cells h r) + 2))
     \<and> (\<forall>e. chat_completions_create sv (cells h r @ [system_message, question_message [] q]) = Inl e
               \<and> \<not> is_Exception e
            \<longrightarrow> (\<exists>tr. generate_answer sv q r h = (tr, Inl e) \<and> cells (last tr) r = cells h r))"
proof -
  have top: "get_top_chunks sv q 10 = Inr []"
    using get_top_chunks_search(1) [OF assms(2)] by simp
  have ctx: "join_context [] = []" by (simp add: join_context_def)
  let ?prompt = "cells h r @ [system_message, question_message [] q]"
  have a: "\<exists>tr. generate_answer sv q r h = (tr, Inr (c, r))
        \<and> cells (last tr) r = cells h r @ [\<lparr>role = ''user'', content = Some q\<rparr>,
              \<lparr>role = ''assistant'', content = c\<rparr>]
        \<and> length (cells (last tr) r) = length (cells h r) + 2"
    if "chat_completions_create sv ?prompt = Inr c" for c
    using generate_answer_returns [OF top assms(1)] that by (auto simp: ctx)
  have b: "\<exists>tr answer. generate_answer sv q r h = (tr, Inr (Some answer, r))
        \<and> answer = ''Error generating response: '' @ exn_str e \<and> answer \<noteq> []
        \<and> cells (last tr) r = cells h r @ [\<lparr>role = ''user'', content = Some q\<rparr>,
              \<lparr>role = ''assistant'', content = Some answer\<rparr>]
        \<and> length (cells (last tr) r) = length (cells h r) + 2"
    if "chat_completions_create sv ?prompt = Inl e" "is_Exception e" for e
    using generate_answer_returns [OF top assms(1)] that by (auto simp: ctx)
  have c: "\<exists>tr. generate_answer sv q r h = (tr, Inl e) \<and> cells (last tr) r = cells h r"
    if "chat_completions_create sv ?prompt = Inl e" "\<not> is_Exception e" for e
    using generate_answer_interrupted [OF top assms(1)] that by (auto simp: ctx)
  from a b c show ?thesis by blast
qed

theorem generate_answer_no_results_witness:
  "0 < fresh empty_heap \<and> search (no_results_chat (Some ''hi'')) ''q'' 10 = Inr []
   \<and> chat_completions_create (no_results_chat (Some ''hi''))
        (cells empty_heap 0 @ [system_message, question_message [] ''q'']) = Inr (Some ''hi'')
   \<and> (\<exists>tr. generate_answer (no_results_chat (Some ''hi'')) ''q'' 0 empty_heap = (tr, Inr (Some ''hi'', 0))
        \<and> cells (last tr) 0 = [\<lparr>role = ''user'', content = Some ''q''\<rparr>,
            \<lparr>role = ''assistant'', content = Some ''hi''\<rparr>])"
proof -
  have v: "0 < fresh empty_heap" by (simp add: empty_heap_def)
  have s: "search (no_results_chat (Some ''hi'')) ''q'' 10 = Inr []" by (simp add: no_results_chat_def)
  have c: "chat_completions_create (no_results_chat (Some ''hi'')) msgs = Inr (Some ''hi'')" for msgs
    by (simp add: no_results_chat_def)
  have e: "cells empty_heap 0 = []" by (simp add: empty_heap_def)
  show ?thesis
    using generate_answer_no_results [OF v s] v s c by (auto simp: e)
qed

text \<open>
  C9. In every heap a call of the answer operation goes through, the caller's history is the
  input history followed by new messages that all have role \<open>user\<close> or \<open>assistant\<close>; neither the
  system message nor a context message for the query is among them. When the call returns, it
  returns the caller's list, and the system message and the context message are in another
  list, the working copy allocated by the call.
\<close>

theorem generate_answer_persists_only_turn:
  assumes "r < fresh h" and "generate_answer sv q r h = (tr, res)"
  shows "(\<forall>h'\<in>set tr. \<exists>new. cells h' r = cells h r @ new
            \<and> (\<forall>m\<in>set new. role m = ''user'' \<or> role m = ''assistant'')
            \<and> system_message \<notin> set new \<and> (\<forall>ctx. question_message ctx q \<notin> set new))
     \<and> (\<forall>a r'. res = Inr (a, r') \<longrightarrow> r' = r \<and> fresh h \<noteq> r
            \<and> (\<exists>ctx. cells (last tr) (fresh h) = cells h r @ [system_message, question_message ctx q]))"
proof (cases rule: generate_answer_cases [where sv = sv and q = q and h = h and r = r])
  case (raises e)
  with assms(2) show ?thesis by (auto simp: generate_answer_raises)
next
  case (interrupted chunks e)
  from generate_answer_interrupted [OF interrupted(1) assms(1) interrupted(2,3)] assms(2)
  show ?thesis by auto
next
  case (returns chunks)
  let ?u = "\<lparr>role = ''user'', content = Some q\<rparr>"
  from generate_answer_returns [OF returns(1) assms(1) returns(2)] assms(2)
  obtain h1 h2 h3 h4 h5 a where tr: "tr = [h, h1, h2, h3, h4, h5]" and res: "res = Inr (a, r)"
    and same: "cells h1 r = cells h r" "cells h2 r = cells h r" "cells h3 r = cells h r"
    and h4: "cells h4 r = cells h r @ [?u]"
    and h5: "cells h5 r = cells h r @ [?u, \<lparr>role = ''assistant'', content = a\<rparr>]"
    and copy: "cells h5 (fresh h) = cells h r @ [system_message, question_message (join_context chunks) q]"
    by auto
  have ok: "(\<forall>m\<in>set new. role m = ''user'' \<or> role m = ''assistant'')
            \<and> system_message \<notin> set new \<and> (\<forall>ctx. question_message ctx q \<notin> set new)"
    if "set new \<subseteq> {?u, \<lparr>role = ''assistant'', content = a\<rparr>}" for new
  proof -
    have "system_message \<noteq> ?u" "system_message \<noteq> \<lparr>role = ''assistant'', content = a\<rparr>"
      by (simp_all add: system_message_def)
    moreover have "question_message ctx q \<noteq> ?u" for ctx by (rule question_message_not_bare)
    moreover have "question_message ctx q \<noteq> \<lparr>role = ''assistant'', content = a\<rparr>" for ctx
      by (simp add: question_message_def)
    ultimately show ?thesis using that by (auto 0 3)
  qed
  have "\<exists>new. cells h' r = cells h r @ new \<and> set new \<subseteq> {?u, \<lparr>role = ''assistant'', content = a\<rparr>}"
    if "h' \<in> set tr" for h'
  proof -
    from that tr consider "cells h' r = cells h r @ []" | "cells h' r = cells h r @ [?u]"
      | "cells h' r = cells h r @ [?u, \<lparr>role = ''assistant'', content = a\<rparr>]"
      using same h4 h5 by auto
    then show ?thesis by cases (rule exI, rule conjI, assumption, simp)+
  qed
  then have first: "\<forall>h'\<in>set tr. \<exists>new. cells h' r = cells h r @ new
            \<and> (\<forall>m\<in>set new. role m = ''user'' \<or> role m = ''assistant'')
            \<and> system_message \<notin> set new \<and> (\<forall>ctx. question_message ctx q \<notin> set new)"
    using ok by meson
  have "fresh h \<noteq> r" using assms(1) by simp
  with first copy tr res show ?thesis by auto
qed

theorem generate_answer_persists_only_turn_witness:
  "0 < fresh empty_heap
   \<and> map role (cells (last (fst (generate_answer (no_results_chat (Some ''hi'')) ''q'' 0 empty_heap))) 0)
       = [''user'', ''assistant'']
   \<and> cells (last (fst (generate_answer (no_results_chat (Some ''hi'')) ''q'' 0 empty_heap))) 1
       = [system_message, question_message [] ''q'']"
proof -
  have v: "0 < fresh empty_heap" by (simp add: empty_heap_def)
  have ev: "map role (cells (last (fst (generate_answer (no_results_chat (Some ''hi'')) ''q'' 0 empty_heap))) 0)
       = [''user'', ''assistant'']
     \<and> cells (last (fst (generate_answer (no_results_chat (Some ''hi'')) ''q'' 0 empty_heap))) 1
       = [system_message, question_message [] ''q'']"
    by (simp add: generate_answer_def get_top_chunks_def no_results_chat_def Let_def deepcopy_def
        list_append_def empty_heap_def join_context_def)
  show ?thesis
    using generate_answer_persists_only_turn
      [OF v generate_answer_no_results_chat [of "Some ''hi''"]] v ev
    by simp
qed

end
